theory Spec2Isabelle
  imports Complex_Main
begin

section \<open>Data model\<close>

text \<open>
  The tables of the TypeScript backend (backend-ts), row by row as the migration declares
  them. Identifiers, statuses, rule types and categories are the strings the code compares;
  an optional column is an \<open>option\<close>. Amounts, rates and percentages are JavaScript
  numbers in the source; they are modelled by exact rationals, and the two places where a
  JavaScript number is not an ordinary number (the quotient of two zero counts, the
  rounding of \<open>toFixed\<close>) are written out. Timestamps are milliseconds since the epoch.
  A table is the list of its rows in the order the store returns them.
\<close>

record company =
  company_id :: string
  defaultCurrency :: string

record user =
  user_id :: string
  user_companyId :: string
  role :: string
  user_isActive :: bool
  managerId :: "string option"

record expense =
  expense_id :: string
  expense_companyId :: string
  userId :: string
  originalCurrency :: string
  originalAmount :: rat
  convertedAmount :: "rat option"
  conversionRate :: "rat option"
  rateTimestamp :: "int option"
  category :: string
  expense_status :: string
  submittedAt :: "int option"

record approvalStep =
  step_id :: nat
  expenseId :: string
  approverId :: string
  sequenceIndex :: int
  step_status :: string
  actionBy :: "string option"
  actionAt :: "int option"
  comments :: "string option"

record approvalRule =
  rule_id :: string
  rule_companyId :: string
  rule_name :: string
  rule_type :: string
  thresholdPercent :: "int option"
  specificApproverId :: "string option"
  appliesToCategory :: "string option"
  minAmount :: "rat option"
  maxAmount :: "rat option"
  isActive :: bool
  priority :: int
  createdAt :: int

record exchangeRate =
  baseCurrency :: string
  targetCurrency :: string
  rate :: rat
  timestamp :: int

record db =
  db_companies :: "company list"
  db_users :: "user list"
  db_expenses :: "expense list"
  db_approvalSteps :: "approvalStep list"
  db_approvalRules :: "approvalRule list"
  db_exchangeRates :: "exchangeRate list"

text \<open>What the code throws: \<open>new AppError(message, statusCode)\<close>, \<open>new Error(message)\<close>,
  and the TypeError of reading a property of a missing relation.\<close>

datatype error = AppError string nat | Error string | TypeError

section \<open>JavaScript numbers where they differ from rationals\<close>

text \<open>The quotient of two counts: \<open>0 / 0\<close> is NaN and \<open>n / 0\<close> is Infinity for
  \<open>n > 0\<close>. Every comparison with NaN is false.\<close>

datatype jsnum = Num rat | PosInf | NaN

definition js_div :: "nat \<Rightarrow> nat \<Rightarrow> jsnum" where
  "js_div a b = (if b = 0 then (if a = 0 then NaN else PosInf) else Num (of_nat a / of_nat b))"

fun js_mul :: "jsnum \<Rightarrow> rat \<Rightarrow> jsnum" where
  "js_mul (Num q) k = Num (q * k)"
| "js_mul PosInf k = (if k > 0 then PosInf else NaN)"
| "js_mul NaN k = NaN"

fun js_ge :: "jsnum \<Rightarrow> rat \<Rightarrow> bool" where
  "js_ge (Num q) t = (q \<ge> t)"
| "js_ge PosInf t = True"
| "js_ge NaN t = False"

text \<open>\<open>x || d\<close> on an optional number: \<open>null\<close> and \<open>0\<close> are both falsy.\<close>

definition js_or :: "int option \<Rightarrow> int \<Rightarrow> int" where
  "js_or x d = (case x of None \<Rightarrow> d | Some v \<Rightarrow> if v = 0 then d else v)"

section \<open>Status evaluation (services/approval.ts)\<close>

text \<open>\<open>prisma.expense.update({ where: { id }, data: { status } })\<close>.\<close>

definition updateExpenseStatus :: "db \<Rightarrow> string \<Rightarrow> string \<Rightarrow> db" where
  "updateExpenseStatus d eid st =
     d\<lparr>db_expenses := map (\<lambda>e. if expense_id e = eid then e\<lparr>expense_status := st\<rparr> else e)
                           (db_expenses d)\<rparr>"

text \<open>The loop of \<open>evaluateSequential\<close> over the sorted steps: the first PENDING step
  returns WAITING_APPROVAL, a REJECTED one writes and returns REJECTED, any other status
  lets the loop go on; after the loop the expense is APPROVED.\<close>

fun evaluateSequential_loop :: "db \<Rightarrow> expense \<Rightarrow> approvalStep list \<Rightarrow> db \<times> string" where
  "evaluateSequential_loop d e [] = (updateExpenseStatus d (expense_id e) ''APPROVED'', ''APPROVED'')"
| "evaluateSequential_loop d e (s # ss) =
     (if step_status s = ''PENDING'' then (d, ''WAITING_APPROVAL'')
      else if step_status s = ''REJECTED''
        then (updateExpenseStatus d (expense_id e) ''REJECTED'', ''REJECTED'')
      else evaluateSequential_loop d e ss)"

definition evaluateSequential :: "db \<Rightarrow> expense \<Rightarrow> approvalStep list \<Rightarrow> db \<times> string" where
  "evaluateSequential d e approvalSteps =
     evaluateSequential_loop d e (sort_key sequenceIndex approvalSteps)"

definition evaluatePercentage :: "db \<Rightarrow> expense \<Rightarrow> approvalStep list \<Rightarrow> int \<Rightarrow> db \<times> string" where
  "evaluatePercentage d e approvalSteps threshold =
     (let totalSteps = length approvalSteps;
          approvedSteps = length (filter (\<lambda>s. step_status s = ''APPROVED'') approvalSteps);
          approvalPercentage = js_mul (js_div approvedSteps totalSteps) 100
      in if js_ge approvalPercentage (of_int threshold)
         then (updateExpenseStatus d (expense_id e) ''APPROVED'', ''APPROVED'')
         else (d, ''WAITING_APPROVAL''))"

definition evaluateSpecific :: "db \<Rightarrow> expense \<Rightarrow> approvalStep list \<Rightarrow> db \<times> string" where
  "evaluateSpecific d e approvalSteps =
     (let approvedSteps = filter (\<lambda>s. step_status s = ''APPROVED'') approvalSteps
      in if length approvedSteps > 0
         then (updateExpenseStatus d (expense_id e) ''APPROVED'', ''APPROVED'')
         else (d, ''WAITING_APPROVAL''))"

text \<open>\<open>step.approverId === rule.specificApproverId\<close>: a step's approver is never null, so
  the comparison with an unset approver is false.\<close>

definition evaluateHybrid :: "db \<Rightarrow> expense \<Rightarrow> approvalStep list \<Rightarrow> approvalRule \<Rightarrow> db \<times> string" where
  "evaluateHybrid d e approvalSteps rule =
     (case find (\<lambda>s. Some (approverId s) = specificApproverId rule) approvalSteps of
        Some specificStep \<Rightarrow>
          if step_status specificStep = ''APPROVED''
          then (updateExpenseStatus d (expense_id e) ''APPROVED'', ''APPROVED'')
          else evaluatePercentage d e approvalSteps (js_or (thresholdPercent rule) 60)
      | None \<Rightarrow> evaluatePercentage d e approvalSteps (js_or (thresholdPercent rule) 60))"

definition evaluateApprovalStatus :: "db \<Rightarrow> expense \<Rightarrow> approvalStep list \<Rightarrow> approvalRule \<Rightarrow> db \<times> string" where
  "evaluateApprovalStatus d e approvalSteps rule =
     (let rejectedSteps = filter (\<lambda>s. step_status s = ''REJECTED'') approvalSteps
      in if length rejectedSteps > 0
         then (updateExpenseStatus d (expense_id e) ''REJECTED'', ''REJECTED'')
         else if rule_type rule = ''SEQUENTIAL'' then evaluateSequential d e approvalSteps
         else if rule_type rule = ''PARALLEL'' \<or> rule_type rule = ''PERCENTAGE''
           then evaluatePercentage d e approvalSteps (js_or (thresholdPercent rule) 50)
         else if rule_type rule = ''SPECIFIC'' then evaluateSpecific d e approvalSteps
         else if rule_type rule = ''HYBRID'' then evaluateHybrid d e approvalSteps rule
         else (d, expense_status e))"

section \<open>Rule matching (services/approval.ts)\<close>

record approvalContext =
  ctx_category :: string
  ctx_amount :: rat
  ctx_userId :: string

text \<open>\<open>getApplicableRules\<close>: the \<open>where\<close> object of \<open>findMany\<close>. The category
  condition is added only when \<open>context.category\<close> is truthy, that is, a non-empty
  string. No \<open>orderBy\<close> is given: the result keeps the store's order.\<close>

definition ruleApplies :: "string \<Rightarrow> approvalContext \<Rightarrow> approvalRule \<Rightarrow> bool" where
  "ruleApplies companyId context r =
     (rule_companyId r = companyId \<and> isActive r
      \<and> (if ctx_category context \<noteq> []
          then appliesToCategory r = Some (ctx_category context) \<or> appliesToCategory r = None
          else True)
      \<and> (case minAmount r of None \<Rightarrow> True | Some lo \<Rightarrow> lo \<le> ctx_amount context)
      \<and> (case maxAmount r of None \<Rightarrow> True | Some hi \<Rightarrow> hi \<ge> ctx_amount context))"

definition getApplicableRules :: "db \<Rightarrow> string \<Rightarrow> approvalContext \<Rightarrow> approvalRule list" where
  "getApplicableRules d companyId context =
     filter (ruleApplies companyId context) (db_approvalRules d)"

text \<open>\<open>rules.sort((a, b) => b.priority - a.priority)\<close>: a stable sort, highest priority
  first.\<close>

definition sortByPriority :: "approvalRule list \<Rightarrow> approvalRule list" where
  "sortByPriority rules = sort_key (\<lambda>r. - priority r) rules"

section \<open>Workflow builder (services/approval.ts)\<close>

definition findUser :: "db \<Rightarrow> string \<Rightarrow> user option" where
  "findUser d uid = find (\<lambda>u. user_id u = uid) (db_users d)"

text \<open>\<open>include: { manager: true }\<close>: the row the manager link points to.\<close>

definition managerOf :: "db \<Rightarrow> user \<Rightarrow> user option" where
  "managerOf d u = (case managerId u of None \<Rightarrow> None | Some mid \<Rightarrow> findUser d mid)"

text \<open>The \<open>while (currentUser?.manager)\<close> loop of \<open>getManagerHierarchy\<close>. Nothing bounds
  it, so it is a partial function: \<open>None\<close> is the loop that never ends.\<close>

partial_function (option) getManagerHierarchy_loop ::
  "db \<Rightarrow> user option \<Rightarrow> user list \<Rightarrow> user list option" where
  "getManagerHierarchy_loop d currentUser managers =
     (case (case currentUser of None \<Rightarrow> None | Some cu \<Rightarrow> managerOf d cu) of
        None \<Rightarrow> Some managers
      | Some m \<Rightarrow> getManagerHierarchy_loop d (findUser d (user_id m)) (managers @ [m]))"

definition getManagerHierarchy :: "db \<Rightarrow> string \<Rightarrow> user list option" where
  "getManagerHierarchy d uid = getManagerHierarchy_loop d (findUser d uid) []"

definition getAllManagers :: "db \<Rightarrow> string \<Rightarrow> user list" where
  "getAllManagers d companyId =
     filter (\<lambda>u. user_companyId u = companyId \<and> (role u = ''MANAGER'' \<or> role u = ''ADMIN'')
                 \<and> user_isActive u) (db_users d)"

text \<open>\<open>prisma.approvalStep.create\<close>: one more row, PENDING, under a fresh identifier.\<close>

definition createStep :: "db \<Rightarrow> string \<Rightarrow> string \<Rightarrow> int \<Rightarrow> db" where
  "createStep d eid aid ix =
     d\<lparr>db_approvalSteps := db_approvalSteps d @
        [\<lparr>step_id = length (db_approvalSteps d), expenseId = eid, approverId = aid,
          sequenceIndex = ix, step_status = ''PENDING'', actionBy = None, actionAt = None,
          comments = None\<rparr>]\<rparr>"

fun createSequential_loop :: "db \<Rightarrow> string \<Rightarrow> user list \<Rightarrow> int \<Rightarrow> db" where
  "createSequential_loop d eid [] i = d"
| "createSequential_loop d eid (a # as) i =
     createSequential_loop (createStep d eid (user_id a) i) eid as (i + 1)"

definition createSequentialApproval ::
  "db \<Rightarrow> string \<Rightarrow> approvalRule \<Rightarrow> approvalContext \<Rightarrow> (db \<times> (error + unit)) option" where
  "createSequentialApproval d eid rule context =
     (case getManagerHierarchy d (ctx_userId context) of
        None \<Rightarrow> None
      | Some approvers \<Rightarrow> Some (createSequential_loop d eid approvers 0, Inr ()))"

definition createParallelApproval ::
  "db \<Rightarrow> string \<Rightarrow> approvalRule \<Rightarrow> approvalContext \<Rightarrow> db \<times> (error + unit)" where
  "createParallelApproval d eid rule context =
     (foldl (\<lambda>d' approver. createStep d' eid (user_id approver) 0) d
            (getAllManagers d (rule_companyId rule)), Inr ())"

definition createPercentageApproval ::
  "db \<Rightarrow> string \<Rightarrow> approvalRule \<Rightarrow> approvalContext \<Rightarrow> db \<times> (error + unit)" where
  "createPercentageApproval d eid rule context = createParallelApproval d eid rule context"

text \<open>\<open>!rule.specificApproverId\<close>: \<open>null\<close> and the empty string are falsy.\<close>

definition createSpecificApproval ::
  "db \<Rightarrow> string \<Rightarrow> approvalRule \<Rightarrow> approvalContext \<Rightarrow> db \<times> (error + unit)" where
  "createSpecificApproval d eid rule context =
     (case specificApproverId rule of
        None \<Rightarrow> (d, Inl (Error ''Specific approver not defined in rule''))
      | Some aid \<Rightarrow>
          if aid = [] then (d, Inl (Error ''Specific approver not defined in rule''))
          else (createStep d eid aid 0, Inr ()))"

definition createHybridApproval ::
  "db \<Rightarrow> string \<Rightarrow> approvalRule \<Rightarrow> approvalContext \<Rightarrow> db \<times> (error + unit)" where
  "createHybridApproval d eid rule context =
     (let d1 = (case specificApproverId rule of
                  None \<Rightarrow> d
                | Some aid \<Rightarrow> if aid = [] then d else createStep d eid aid 0)
      in (foldl (\<lambda>d' approver.
                   if Some (user_id approver) \<noteq> specificApproverId rule
                   then createStep d' eid (user_id approver) 1 else d')
                d1 (getAllManagers d1 (rule_companyId rule)), Inr ()))"

definition applyRule ::
  "db \<Rightarrow> string \<Rightarrow> approvalRule \<Rightarrow> approvalContext \<Rightarrow> (db \<times> (error + unit)) option" where
  "applyRule d eid rule context =
     (if rule_type rule = ''SEQUENTIAL'' then createSequentialApproval d eid rule context
      else if rule_type rule = ''PARALLEL'' then Some (createParallelApproval d eid rule context)
      else if rule_type rule = ''PERCENTAGE'' then Some (createPercentageApproval d eid rule context)
      else if rule_type rule = ''SPECIFIC'' then Some (createSpecificApproval d eid rule context)
      else if rule_type rule = ''HYBRID'' then Some (createHybridApproval d eid rule context)
      else Some (d, Inl (Error (''Unknown approval rule type: '' @ rule_type rule))))"

text \<open>\<open>createApprovalSteps\<close>: with no applicable rule it logs a warning and returns; with
  some, it applies the first rule of the sorted list. The \<open>catch\<close> rethrows.\<close>

definition createApprovalSteps ::
  "db \<Rightarrow> string \<Rightarrow> string \<Rightarrow> approvalContext \<Rightarrow> (db \<times> (error + unit)) option" where
  "createApprovalSteps d eid companyId context =
     (let rules = getApplicableRules d companyId context
      in if length rules = 0 then Some (d, Inr ())
         else (case sortByPriority rules of
                 [] \<Rightarrow> Some (d, Inl TypeError)
               | rule # _ \<Rightarrow> applyRule d eid rule context))"

section \<open>Processing a decision (services/approval.ts)\<close>

definition findExpense :: "db \<Rightarrow> string \<Rightarrow> expense option" where
  "findExpense d eid = find (\<lambda>e. expense_id e = eid) (db_expenses d)"

text \<open>\<open>include: { approvalSteps: { orderBy: { sequenceIndex: 'asc' } } }\<close>.\<close>

definition stepsOfExpense :: "db \<Rightarrow> string \<Rightarrow> approvalStep list" where
  "stepsOfExpense d eid =
     sort_key sequenceIndex (filter (\<lambda>s. expenseId s = eid) (db_approvalSteps d))"

text \<open>\<open>Number(expense.convertedAmount)\<close>: \<open>Number(null)\<close> is 0.\<close>

definition numberOf :: "rat option \<Rightarrow> rat" where
  "numberOf x = (case x of None \<Rightarrow> 0 | Some v \<Rightarrow> v)"

definition processApproval :: "db \<Rightarrow> string \<Rightarrow> db \<times> (error + string)" where
  "processApproval d eid =
     (case findExpense d eid of
        None \<Rightarrow> (d, Inl (Error ''Expense not found''))
      | Some e \<Rightarrow>
          (let rules = getApplicableRules d (expense_companyId e)
                         \<lparr>ctx_category = category e, ctx_amount = numberOf (convertedAmount e),
                          ctx_userId = userId e\<rparr>
           in if length rules = 0 then (d, Inr (expense_status e))
              else (case sortByPriority rules of
                      [] \<Rightarrow> (d, Inl TypeError)
                    | rule # _ \<Rightarrow>
                        (case evaluateApprovalStatus d e (stepsOfExpense d eid) rule of
                           (d', st) \<Rightarrow> (d', Inr st)))))"

section \<open>Currency conversion (services/currency.ts)\<close>

record conversionResult =
  res_convertedAmount :: rat
  res_rate :: rat
  res_timestamp :: int

text \<open>\<open>Number(x.toFixed(2))\<close>: the nearest number with two decimals, a tie going away
  from zero.\<close>

definition toFixed2 :: "rat \<Rightarrow> rat" where
  "toFixed2 x = (if x < 0 then - (of_int \<lfloor>(- x) * 100 + 1 / 2\<rfloor> / 100)
                 else of_int \<lfloor>x * 100 + 1 / 2\<rfloor> / 100)"

text \<open>\<open>getCachedRate\<close>: the newest entry of the pair that is at most an hour old.\<close>

definition getCachedRate :: "db \<Rightarrow> string \<Rightarrow> string \<Rightarrow> int \<Rightarrow> exchangeRate option" where
  "getCachedRate d fromCurrency toCurrency now =
     (let oneHourAgo = now - 60 * 60 * 1000
      in case sort_key (\<lambda>r. - timestamp r)
                (filter (\<lambda>r. baseCurrency r = fromCurrency \<and> targetCurrency r = toCurrency
                             \<and> timestamp r \<ge> oneHourAgo) (db_exchangeRates d)) of
           [] \<Rightarrow> None
         | r # _ \<Rightarrow> Some r)"

text \<open>\<open>cacheRate\<close>: a new row; a failing insert (the unique index on currency pair and
  timestamp) is logged and swallowed.\<close>

definition cacheRate :: "db \<Rightarrow> string \<Rightarrow> string \<Rightarrow> rat \<Rightarrow> int \<Rightarrow> db" where
  "cacheRate d fromCurrency toCurrency r ts =
     (if \<exists>x\<in>set (db_exchangeRates d).
           baseCurrency x = fromCurrency \<and> targetCurrency x = toCurrency \<and> timestamp x = ts
      then d
      else d\<lparr>db_exchangeRates := db_exchangeRates d @
             [\<lparr>baseCurrency = fromCurrency, targetCurrency = toCurrency, rate = r,
               timestamp = ts\<rparr>]\<rparr>)"

text \<open>\<open>convertCurrency\<close>. The answer of the external rate source is a parameter:
  \<open>Some r\<close> is a successful response with \<open>conversion_rate\<close> \<open>r\<close>, \<open>None\<close> a failed
  request or a response whose result is not \<open>success\<close>. Every failure leaves as the one
  error of the \<open>catch\<close>.\<close>

definition convertCurrency ::
  "db \<Rightarrow> string \<Rightarrow> string \<Rightarrow> rat \<Rightarrow> int \<Rightarrow> rat option \<Rightarrow> db \<times> (error + conversionResult)" where
  "convertCurrency d fromCurrency toCurrency amount now api =
     (case getCachedRate d fromCurrency toCurrency now of
        Some cachedRate \<Rightarrow>
          (d, Inr \<lparr>res_convertedAmount = toFixed2 (amount * rate cachedRate),
                   res_rate = rate cachedRate, res_timestamp = timestamp cachedRate\<rparr>)
      | None \<Rightarrow>
          (case api of
             None \<Rightarrow> (d, Inl (Error ''Currency conversion service unavailable''))
           | Some r \<Rightarrow>
               (cacheRate d fromCurrency toCurrency r now,
                Inr \<lparr>res_convertedAmount = toFixed2 (amount * r), res_rate = r,
                     res_timestamp = now\<rparr>)))"

section \<open>The controller (controllers/expense.ts)\<close>

definition findCompany :: "db \<Rightarrow> string \<Rightarrow> company option" where
  "findCompany d cid = find (\<lambda>c. company_id c = cid) (db_companies d)"

text \<open>The \<open>prisma.expense.update\<close> of \<open>submitExpense\<close>.\<close>

definition writeSubmission :: "db \<Rightarrow> string \<Rightarrow> rat \<Rightarrow> rat \<Rightarrow> int \<Rightarrow> int \<Rightarrow> db" where
  "writeSubmission d eid amount r ts now =
     d\<lparr>db_expenses :=
         map (\<lambda>e. if expense_id e = eid
                  then e\<lparr>convertedAmount := Some amount, conversionRate := Some r,
                         rateTimestamp := Some ts, expense_status := ''WAITING_APPROVAL'',
                         submittedAt := Some now\<rparr>
                  else e) (db_expenses d)\<rparr>"

text \<open>The rest of \<open>submitExpense\<close> once the conversion is known: the expense update, then
  the approval steps. Nothing joins the two writes.\<close>

definition submitExpense_write ::
  "db \<Rightarrow> expense \<Rightarrow> string \<Rightarrow> string \<Rightarrow> rat \<Rightarrow> rat \<Rightarrow> int \<Rightarrow> int
     \<Rightarrow> (db \<times> (error + expense)) option" where
  "submitExpense_write d e companyId uid amount r ts now =
     (let d1 = writeSubmission d (expense_id e) amount r ts now
      in case createApprovalSteps d1 (expense_id e) companyId
                \<lparr>ctx_category = category e, ctx_amount = amount, ctx_userId = uid\<rparr> of
           None \<Rightarrow> None
         | Some (d2, Inl err) \<Rightarrow> Some (d2, Inl err)
         | Some (d2, Inr _) \<Rightarrow>
             Some (d2, Inr (e\<lparr>convertedAmount := Some amount, conversionRate := Some r,
                               rateTimestamp := Some ts, expense_status := ''WAITING_APPROVAL'',
                               submittedAt := Some now\<rparr>)))"

text \<open>\<open>submitExpense\<close> for the authenticated user \<open>(companyId, uid)\<close> and the expense
  \<open>eid\<close>, at time \<open>now\<close>, with \<open>api\<close> the answer of the rate source. Notifications and
  the audit log catch their own errors and touch no table modelled here.\<close>

definition submitExpense ::
  "db \<Rightarrow> string \<Rightarrow> string \<Rightarrow> string \<Rightarrow> int \<Rightarrow> rat option \<Rightarrow> (db \<times> (error + expense)) option" where
  "submitExpense d companyId uid eid now api =
     (case findExpense d eid of
        None \<Rightarrow> Some (d, Inl (AppError ''Expense not found'' 404))
      | Some e \<Rightarrow>
          if expense_companyId e \<noteq> companyId
            then Some (d, Inl (AppError ''Expense not found'' 404))
          else if userId e \<noteq> uid
            then Some (d, Inl (AppError ''You can only submit your own expenses'' 403))
          else if expense_status e \<noteq> ''DRAFT''
            then Some (d, Inl (AppError ''Only draft expenses can be submitted'' 400))
          else (case findCompany d (expense_companyId e) of
                  None \<Rightarrow> Some (d, Inl TypeError)
                | Some c \<Rightarrow>
                    if originalCurrency e \<noteq> defaultCurrency c
                    then (case convertCurrency d (originalCurrency e) (defaultCurrency c)
                                 (originalAmount e) now api of
                            (d', Inl err) \<Rightarrow> Some (d', Inl err)
                          | (d', Inr currencyData) \<Rightarrow>
                              submitExpense_write d' e companyId uid
                                (res_convertedAmount currencyData) (res_rate currencyData)
                                (res_timestamp currencyData) now)
                    else submitExpense_write d e companyId uid (originalAmount e) 1 now now))"

text \<open>\<open>action.toUpperCase()\<close> on the ASCII letters of the validated actions.\<close>

definition toUpperCase :: "string \<Rightarrow> string" where
  "toUpperCase s =
     map (\<lambda>c. if (97::nat) \<le> of_char c \<and> of_char c \<le> (122::nat)
              then char_of (of_char c - (32::nat)) else c) s"

text \<open>The reads of \<open>approveExpense\<close>: the expense with the caller's steps, the three
  checks, and the caller's first PENDING step.\<close>

definition approveExpense_check ::
  "db \<Rightarrow> string \<Rightarrow> string \<Rightarrow> string \<Rightarrow> error + approvalStep" where
  "approveExpense_check d companyId uid eid =
     (case findExpense d eid of
        None \<Rightarrow> Inl (AppError ''Expense not found'' 404)
      | Some e \<Rightarrow>
          if expense_companyId e \<noteq> companyId then Inl (AppError ''Expense not found'' 404)
          else if expense_status e \<noteq> ''WAITING_APPROVAL''
            then Inl (AppError ''Expense is not waiting for approval'' 400)
          else (case find (\<lambda>s. approverId s = uid \<and> step_status s = ''PENDING'')
                       (filter (\<lambda>s. approverId s = uid) (stepsOfExpense d eid)) of
                  None \<Rightarrow> Inl (AppError ''You are not authorized to approve this expense'' 403)
                | Some approvalStep \<Rightarrow> Inr approvalStep))"

text \<open>\<open>prisma.approvalStep.update({ where: { id }, data })\<close>: the row with that
  identifier is overwritten, whatever its status.\<close>

definition updateStep :: "db \<Rightarrow> nat \<Rightarrow> string \<Rightarrow> string \<Rightarrow> int \<Rightarrow> string option \<Rightarrow> db" where
  "updateStep d sid st uid now cs =
     d\<lparr>db_approvalSteps :=
         map (\<lambda>s. if step_id s = sid
                  then s\<lparr>step_status := st, actionBy := Some uid, actionAt := Some now,
                         comments := cs\<rparr>
                  else s) (db_approvalSteps d)\<rparr>"

text \<open>The writes of \<open>approveExpense\<close>: the step update, then \<open>processApproval\<close>.\<close>

definition approveExpense_write ::
  "db \<Rightarrow> approvalStep \<Rightarrow> string \<Rightarrow> string \<Rightarrow> string \<Rightarrow> string option \<Rightarrow> int
     \<Rightarrow> db \<times> (error + string)" where
  "approveExpense_write d approvalStep uid eid action cs now =
     processApproval (updateStep d (step_id approvalStep) (toUpperCase action) uid now cs) eid"

definition approveExpense ::
  "db \<Rightarrow> string \<Rightarrow> string \<Rightarrow> string \<Rightarrow> string \<Rightarrow> string option \<Rightarrow> int
     \<Rightarrow> db \<times> (error + string)" where
  "approveExpense d companyId uid eid action cs now =
     (case approveExpense_check d companyId uid eid of
        Inl err \<Rightarrow> (d, Inl err)
      | Inr approvalStep \<Rightarrow> approveExpense_write d approvalStep uid eid action cs now)"

section \<open>The hybrid rule as the specification words it\<close>

text \<open>The specification's reading of the hybrid fall-through, kept apart from the code's
  \<open>evaluateHybrid\<close> to compare the two: the percentage rule over the steps that are not
  the specific approver's.\<close>

definition remainingSteps :: "approvalRule \<Rightarrow> approvalStep list \<Rightarrow> approvalStep list" where
  "remainingSteps rule approvalSteps =
     filter (\<lambda>s. Some (approverId s) \<noteq> specificApproverId rule) approvalSteps"

definition evaluateHybrid_spec ::
  "db \<Rightarrow> expense \<Rightarrow> approvalStep list \<Rightarrow> approvalRule \<Rightarrow> db \<times> string" where
  "evaluateHybrid_spec d e approvalSteps rule =
     (if \<exists>s\<in>set approvalSteps. Some (approverId s) = specificApproverId rule
                                 \<and> step_status s = ''APPROVED''
      then (updateExpenseStatus d (expense_id e) ''APPROVED'', ''APPROVED'')
      else evaluatePercentage d e (remainingSteps rule approvalSteps)
             (js_or (thresholdPercent rule) 60))"

section \<open>Example data\<close>

definition mkStep :: "nat \<Rightarrow> string \<Rightarrow> string \<Rightarrow> int \<Rightarrow> string \<Rightarrow> approvalStep" where
  "mkStep i eid aid ix st =
     \<lparr>step_id = i, expenseId = eid, approverId = aid, sequenceIndex = ix, step_status = st,
      actionBy = None, actionAt = None, comments = None\<rparr>"

definition mkRule :: "string \<Rightarrow> string \<Rightarrow> int option \<Rightarrow> string option \<Rightarrow> int \<Rightarrow> int \<Rightarrow> approvalRule" where
  "mkRule rid ty thr spec prio created =
     \<lparr>rule_id = rid, rule_companyId = ''c1'', rule_name = rid, rule_type = ty,
      thresholdPercent = thr, specificApproverId = spec, appliesToCategory = None,
      minAmount = None, maxAmount = None, isActive = True, priority = prio,
      createdAt = created\<rparr>"

definition mkUser :: "string \<Rightarrow> string \<Rightarrow> string option \<Rightarrow> user" where
  "mkUser uid r m =
     \<lparr>user_id = uid, user_companyId = ''c1'', role = r, user_isActive = True, managerId = m\<rparr>"

definition mkExpense :: "string \<Rightarrow> string \<Rightarrow> string \<Rightarrow> rat \<Rightarrow> string \<Rightarrow> expense" where
  "mkExpense eid uid cur amount st =
     \<lparr>expense_id = eid, expense_companyId = ''c1'', userId = uid, originalCurrency = cur,
      originalAmount = amount, convertedAmount = None, conversionRate = None,
      rateTimestamp = None, category = ''Travel'', expense_status = st, submittedAt = None\<rparr>"

text \<open>A company in USD with an employee, the employee's manager and an admin.\<close>

definition emptyDb :: db where
  "emptyDb = \<lparr>db_companies = [\<lparr>company_id = ''c1'', defaultCurrency = ''USD''\<rparr>],
              db_users = [mkUser ''emp'' ''EMPLOYEE'' (Some ''mgr''),
                          mkUser ''mgr'' ''MANAGER'' None,
                          mkUser ''adm'' ''ADMIN'' None],
              db_expenses = [], db_approvalSteps = [], db_approvalRules = [],
              db_exchangeRates = []\<rparr>"

text \<open>A hybrid workflow: the specific approver has not decided, one of the two other
  approvers has approved.\<close>

definition hybridSteps :: "approvalStep list" where
  "hybridSteps = [mkStep 0 ''e1'' ''adm'' 0 ''PENDING'', mkStep 1 ''e1'' ''mgr'' 1 ''APPROVED'',
                  mkStep 2 ''e1'' ''mg2'' 1 ''PENDING'']"

definition hybridRule :: approvalRule where
  "hybridRule = mkRule ''r1'' ''HYBRID'' (Some 50) (Some ''adm'') 1 0"

text \<open>Three rules as the store returns them: two of priority 1, the later one first, and a
  rule for the category Meals.\<close>

definition ruleLate :: approvalRule where
  "ruleLate = mkRule ''rLate'' ''SPECIFIC'' None (Some ''adm'') 1 2000"

definition ruleEarly :: approvalRule where
  "ruleEarly = mkRule ''rEarly'' ''PARALLEL'' None None 1 1000"

definition ruleMeals :: approvalRule where
  "ruleMeals = (mkRule ''rMeals'' ''PARALLEL'' None None 0 3000)\<lparr>appliesToCategory := Some ''Meals''\<rparr>"

definition ruleDb :: db where
  "ruleDb = emptyDb\<lparr>db_approvalRules := [ruleLate, ruleEarly, ruleMeals]\<rparr>"

definition travelCtx :: approvalContext where
  "travelCtx = \<lparr>ctx_category = ''Travel'', ctx_amount = 500, ctx_userId = ''emp''\<rparr>"

definition noCategoryCtx :: approvalContext where
  "noCategoryCtx = \<lparr>ctx_category = [], ctx_amount = 500, ctx_userId = ''emp''\<rparr>"

text \<open>The same rules returned in creation order.\<close>

definition ruleDbSorted :: db where
  "ruleDbSorted = emptyDb\<lparr>db_approvalRules := [ruleEarly, ruleLate, ruleMeals]\<rparr>"

text \<open>The managers above a user as a relation, to say what the walk computes when it
  ends: \<open>managerChain d cur ms\<close> holds when following the manager links from \<open>cur\<close>
  meets exactly the managers \<open>ms\<close>, in order, and then a user with no manager row.\<close>

inductive managerChain :: "db \<Rightarrow> user option \<Rightarrow> user list \<Rightarrow> bool" for d :: db where
  top: "(case cur of None \<Rightarrow> None | Some cu \<Rightarrow> managerOf d cu) = None \<Longrightarrow> managerChain d cur []"
| up: "(case cur of None \<Rightarrow> None | Some cu \<Rightarrow> managerOf d cu) = Some m
        \<Longrightarrow> managerChain d (findUser d (user_id m)) ms \<Longrightarrow> managerChain d cur (m # ms)"

text \<open>Two users who are each other's manager.\<close>

definition cycleDb :: db where
  "cycleDb = emptyDb\<lparr>db_users := [mkUser ''ann'' ''MANAGER'' (Some ''bob''),
                                   mkUser ''bob'' ''MANAGER'' (Some ''ann'')]\<rparr>"

text \<open>A draft expense of the employee, in the company's currency, and no rule at all.\<close>

definition draftDb :: db where
  "draftDb = emptyDb\<lparr>db_expenses := [mkExpense ''e1'' ''emp'' ''USD'' 500 ''DRAFT'']\<rparr>"

text \<open>The same draft under one active SPECIFIC rule that names no approver.\<close>

definition badRuleDb :: db where
  "badRuleDb = draftDb\<lparr>db_approvalRules := [mkRule ''r1'' ''SPECIFIC'' None None 1 0]\<rparr>"

text \<open>An expense waiting for approval under a PARALLEL rule; the manager's step is decided
  already, the admin's is pending, and the user \<open>out\<close> holds no step.\<close>

definition decidedDb :: db where
  "decidedDb = emptyDb\<lparr>db_expenses := [mkExpense ''e1'' ''emp'' ''USD'' 500 ''WAITING_APPROVAL''],
                         db_approvalSteps := [mkStep 0 ''e1'' ''mgr'' 0 ''APPROVED'',
                                              mkStep 1 ''e1'' ''adm'' 0 ''PENDING''],
                         db_approvalRules := [mkRule ''r1'' ''PARALLEL'' None None 1 0]\<rparr>"

text \<open>The same expense once it is APPROVED.\<close>

definition closedDb :: db where
  "closedDb = decidedDb\<lparr>db_expenses := [mkExpense ''e1'' ''emp'' ''USD'' 500 ''APPROVED'']\<rparr>"

text \<open>An expense waiting for the manager's decision, under a PARALLEL rule.\<close>

definition raceDb :: db where
  "raceDb = emptyDb\<lparr>db_expenses := [mkExpense ''e1'' ''emp'' ''USD'' 500 ''WAITING_APPROVAL''],
                      db_approvalSteps := [mkStep 0 ''e1'' ''mgr'' 0 ''PENDING''],
                      db_approvalRules := [mkRule ''r1'' ''PARALLEL'' None None 1 0]\<rparr>"

text \<open>The step of \<open>raceDb\<close> after a decision \<open>st\<close> of the manager at time \<open>t\<close>.\<close>

definition decidedStep :: "string \<Rightarrow> int \<Rightarrow> string option \<Rightarrow> approvalStep" where
  "decidedStep st t cs = (mkStep 0 ''e1'' ''mgr'' 0 st)\<lparr>actionBy := Some ''mgr'', actionAt := Some t,
                                                     comments := cs\<rparr>"

section \<open>Runs of requests\<close>







section \<open>Properties\<close>

subsection \<open>Status evaluation\<close>

lemma length_filter_pos_iff: "(0 < length (filter P xs)) = (\<exists>x\<in>set xs. P x)"
  by (induction xs) auto

text \<open>
  Claim C2. Whatever the rule type, a snapshot with at least one REJECTED step makes
  \<open>evaluateApprovalStatus\<close> write REJECTED to the expense and return REJECTED: the
  rejection test stands before the dispatch on the rule type, so it also wins over an
  approval of the specific approver under SPECIFIC and HYBRID rules.
\<close>

theorem rejected_step_rejects:
  assumes "\<exists>s\<in>set approvalSteps. step_status s = ''REJECTED''"
  shows "evaluateApprovalStatus d e approvalSteps rule =
           (updateExpenseStatus d (expense_id e) ''REJECTED'', ''REJECTED'')"
  using assms unfolding evaluateApprovalStatus_def Let_def
  by (simp only: length_filter_pos_iff if_True)

theorem rejected_step_rejects_witness:
  "(\<exists>s\<in>set [mkStep 0 ''e1'' ''adm'' 0 ''APPROVED'', mkStep 1 ''e1'' ''mgr'' 1 ''REJECTED''].
       step_status s = ''REJECTED'')
   \<and> snd (evaluateApprovalStatus emptyDb
             (mkExpense ''e1'' ''emp'' ''USD'' 500 ''WAITING_APPROVAL'')
             [mkStep 0 ''e1'' ''adm'' 0 ''APPROVED'', mkStep 1 ''e1'' ''mgr'' 1 ''REJECTED'']
             (mkRule ''r1'' ''HYBRID'' (Some 60) (Some ''adm'') 1 0)) = ''REJECTED''"
proof -
  have h: "\<exists>s\<in>set [mkStep 0 ''e1'' ''adm'' 0 ''APPROVED'', mkStep 1 ''e1'' ''mgr'' 1 ''REJECTED''].
       step_status s = ''REJECTED''"
    by (simp add: mkStep_def)
  from rejected_step_rejects [OF h]
  have "snd (evaluateApprovalStatus emptyDb
             (mkExpense ''e1'' ''emp'' ''USD'' 500 ''WAITING_APPROVAL'')
             [mkStep 0 ''e1'' ''adm'' 0 ''APPROVED'', mkStep 1 ''e1'' ''mgr'' 1 ''REJECTED'']
             (mkRule ''r1'' ''HYBRID'' (Some 60) (Some ''adm'') 1 0)) = ''REJECTED''"
    by (simp only: snd_conv)
  with h show ?thesis by (rule conjI)
qed

text \<open>
  Claim C3, at the input where the code leaves it. With no step at all, the quotient
  \<open>approvedSteps / totalSteps\<close> is \<open>0 / 0\<close>, NaN, and \<open>NaN >= threshold\<close> is false:
  a PERCENTAGE rule with threshold 60 and a PARALLEL rule with no threshold both return
  WAITING_APPROVAL and write nothing, where the claim has APPROVED.
\<close>

theorem percentage_zero_steps_waiting:
  "evaluateApprovalStatus d e [] (mkRule ''r1'' ''PERCENTAGE'' (Some 60) None 1 0)
     = (d, ''WAITING_APPROVAL'')
   \<and> evaluateApprovalStatus d e [] (mkRule ''r2'' ''PARALLEL'' None None 1 0)
     = (d, ''WAITING_APPROVAL'')"
  by (simp add: evaluateApprovalStatus_def evaluatePercentage_def js_div_def mkRule_def)

text \<open>The rest of claim C3 holds on every snapshot that has a step: with no REJECTED step,
  a PARALLEL or PERCENTAGE rule approves exactly when the share of APPROVED steps reaches
  the threshold, 50 when the rule sets none (or sets 0).\<close>

lemma percentage_threshold_rule:
  assumes "rule_type rule = ''PARALLEL'' \<or> rule_type rule = ''PERCENTAGE''"
    and "\<forall>s\<in>set ss. step_status s \<noteq> ''REJECTED''"
    and "ss \<noteq> []"
  shows "evaluateApprovalStatus d e ss rule =
     (if of_nat (length (filter (\<lambda>s. step_status s = ''APPROVED'') ss)) / of_nat (length ss) * 100
           \<ge> (of_int (js_or (thresholdPercent rule) 50) :: rat)
      then (updateExpenseStatus d (expense_id e) ''APPROVED'', ''APPROVED'')
      else (d, ''WAITING_APPROVAL''))"
proof -
  have nr: "filter (\<lambda>s. step_status s = ''REJECTED'') ss = []"
    using assms(2) by (simp add: filter_empty_conv)
  have "evaluateApprovalStatus d e ss rule
          = evaluatePercentage d e ss (js_or (thresholdPercent rule) 50)"
    using assms(1) nr by (auto simp: evaluateApprovalStatus_def)
  then show ?thesis
    using assms(3) by (simp add: evaluatePercentage_def js_div_def Let_def)
qed

lemma percentage_sixty_of_five:
  "snd (evaluateApprovalStatus d e
          [mkStep 0 ''e1'' ''a'' 0 ''APPROVED'', mkStep 1 ''e1'' ''b'' 0 ''APPROVED'',
           mkStep 2 ''e1'' ''c'' 0 ''APPROVED'', mkStep 3 ''e1'' ''d'' 0 ''PENDING'',
           mkStep 4 ''e1'' ''f'' 0 ''PENDING'']
          (mkRule ''r1'' ''PERCENTAGE'' (Some 60) None 1 0)) = ''APPROVED''"
  "snd (evaluateApprovalStatus d e
          [mkStep 0 ''e1'' ''a'' 0 ''APPROVED'', mkStep 1 ''e1'' ''b'' 0 ''APPROVED'',
           mkStep 2 ''e1'' ''c'' 0 ''PENDING'', mkStep 3 ''e1'' ''d'' 0 ''PENDING'',
           mkStep 4 ''e1'' ''f'' 0 ''PENDING'']
          (mkRule ''r1'' ''PERCENTAGE'' (Some 60) None 1 0)) = ''WAITING_APPROVAL''"
  by (simp_all add: evaluateApprovalStatus_def evaluatePercentage_def js_div_def js_or_def
      mkRule_def mkStep_def)

lemma hybridRule_simps:
  "rule_type hybridRule = ''HYBRID''" "thresholdPercent hybridRule = Some 50"
  "specificApproverId hybridRule = Some ''adm''"
  by (simp_all add: hybridRule_def mkRule_def)

lemma hybridSteps_no_reject: "\<forall>s\<in>set hybridSteps. step_status s \<noteq> ''REJECTED''"
  by (simp add: hybridSteps_def mkStep_def)

text \<open>
  Claim C4 as stated fails. With the specific approver's step PENDING and one of the two
  other steps APPROVED, threshold 50, the code counts one approval in three steps and
  stays WAITING_APPROVAL; the percentage rule over the two remaining steps alone, as the
  claim words it, gives one in two and APPROVED.
\<close>

theorem hybrid_remaining_counterexample:
  "rule_type hybridRule = ''HYBRID''
   \<and> filter (\<lambda>s. step_status s = ''REJECTED'') hybridSteps = []
   \<and> snd (evaluateApprovalStatus emptyDb (mkExpense ''e1'' ''emp'' ''USD'' 500 ''WAITING_APPROVAL'')
          hybridSteps hybridRule) = ''WAITING_APPROVAL''
   \<and> snd (evaluateHybrid_spec emptyDb (mkExpense ''e1'' ''emp'' ''USD'' 500 ''WAITING_APPROVAL'')
          hybridSteps hybridRule) = ''APPROVED''"
  by (simp add: evaluateApprovalStatus_def evaluateHybrid_def evaluateHybrid_spec_def
      remainingSteps_def evaluatePercentage_def js_div_def js_or_def hybridRule_simps
      hybridSteps_def mkStep_def)

text \<open>
  Claim C4 as amended. For a HYBRID rule and a snapshot with no REJECTED step: when the
  first step of the specific approver is APPROVED, the expense is APPROVED at once;
  otherwise the result is the percentage evaluation over all the steps of the expense,
  the specific approver's step included, with the rule's threshold, 60 when it is unset.
\<close>

theorem hybrid_counts_all_steps:
  assumes "rule_type rule = ''HYBRID''"
    and "\<forall>s\<in>set approvalSteps. step_status s \<noteq> ''REJECTED''"
  shows "evaluateApprovalStatus d e approvalSteps rule =
     (if \<exists>s. find (\<lambda>s. Some (approverId s) = specificApproverId rule) approvalSteps = Some s
              \<and> step_status s = ''APPROVED''
      then (updateExpenseStatus d (expense_id e) ''APPROVED'', ''APPROVED'')
      else evaluatePercentage d e approvalSteps (js_or (thresholdPercent rule) 60))"
proof -
  have "filter (\<lambda>s. step_status s = ''REJECTED'') approvalSteps = []"
    using assms(2) by (simp add: filter_empty_conv)
  then show ?thesis
    using assms(1)
    by (simp add: evaluateApprovalStatus_def evaluateHybrid_def split: option.splits)
qed

theorem hybrid_counts_all_steps_witness:
  "rule_type hybridRule = ''HYBRID''
   \<and> filter (\<lambda>s. step_status s = ''REJECTED'') hybridSteps = []
   \<and> evaluateApprovalStatus emptyDb (mkExpense ''e1'' ''emp'' ''USD'' 500 ''WAITING_APPROVAL'')
          hybridSteps hybridRule
       = evaluatePercentage emptyDb (mkExpense ''e1'' ''emp'' ''USD'' 500 ''WAITING_APPROVAL'')
          hybridSteps 50"
proof -
  have f: "find (\<lambda>s. Some (approverId s) = specificApproverId hybridRule) hybridSteps
             = Some (mkStep 0 ''e1'' ''adm'' 0 ''PENDING'')"
    by (simp add: hybridSteps_def mkStep_def hybridRule_simps)
  have "evaluateApprovalStatus emptyDb (mkExpense ''e1'' ''emp'' ''USD'' 500 ''WAITING_APPROVAL'')
          hybridSteps hybridRule
       = evaluatePercentage emptyDb (mkExpense ''e1'' ''emp'' ''USD'' 500 ''WAITING_APPROVAL'')
          hybridSteps (js_or (thresholdPercent hybridRule) 60)"
    unfolding hybrid_counts_all_steps [OF hybridRule_simps(1) hybridSteps_no_reject] f
    by (simp add: mkStep_def)
  moreover have "filter (\<lambda>s. step_status s = ''REJECTED'') hybridSteps = []"
    by (simp add: hybridSteps_def mkStep_def)
  ultimately show ?thesis
    by (simp add: hybridRule_simps js_or_def)
qed

subsection \<open>Rule matching\<close>


lemma sort_key_head:
  fixes f :: "'a \<Rightarrow> 'k::linorder"
  assumes "xs \<noteq> []"
  shows "\<exists>g rest before after. sort_key f xs = g # rest \<and> xs = before @ g # after
           \<and> (\<forall>y\<in>set before. f g < f y) \<and> (\<forall>y\<in>set after. f g \<le> f y)"
  using assms
proof (induction xs)
  case Nil
  then show ?case by simp
next
  case (Cons x xs)
  show ?case
  proof (cases "xs = []")
    case True
    have "sort_key f (x # xs) = x # []" using True by simp
    moreover have "x # xs = [] @ x # []" using True by simp
    ultimately show ?thesis by (metis empty_iff list.set(1))
  next
    case False
    from Cons.IH [OF False] obtain g rest before after where
      s: "sort_key f xs = g # rest" and x: "xs = before @ g # after"
      and b: "\<forall>y\<in>set before. f g < f y" and a: "\<forall>y\<in>set after. f g \<le> f y"
      by blast
    show ?thesis
    proof (cases "f x \<le> f g")
      case True
      have "sort_key f (x # xs) = x # g # rest" using s True by simp
      moreover have "x # xs = [] @ x # xs" by simp
      moreover have "\<forall>y\<in>set xs. f x \<le> f y"
        using x b a True by (auto intro: order_trans less_imp_le)
      ultimately show ?thesis by (metis empty_iff list.set(1))
    next
      case False
      have "sort_key f (x # xs) = g # insort_key f x rest" using s False by simp
      moreover have "x # xs = (x # before) @ g # after" using x by simp
      moreover have "\<forall>y\<in>set (x # before). f g < f y" using b False by auto
      ultimately show ?thesis using a by blast
    qed
  qed
qed

lemma ruleApplies_iff:
  "ruleApplies cid ctx r \<longleftrightarrow>
     rule_companyId r = cid \<and> isActive r
     \<and> (ctx_category ctx = [] \<or> appliesToCategory r = None
          \<or> appliesToCategory r = Some (ctx_category ctx))
     \<and> (\<forall>lo. minAmount r = Some lo \<longrightarrow> lo \<le> ctx_amount ctx)
     \<and> (\<forall>hi. maxAmount r = Some hi \<longrightarrow> ctx_amount ctx \<le> hi)"
  by (auto simp: ruleApplies_def split: option.splits)

lemma createApprovalSteps_governing:
  assumes "sortByPriority (getApplicableRules d cid ctx) = g # rest"
  shows "createApprovalSteps d eid cid ctx = applyRule d eid g ctx"
proof -
  have "getApplicableRules d cid ctx \<noteq> []"
    using assms by (auto simp: sortByPriority_def)
  then show ?thesis
    using assms by (simp add: createApprovalSteps_def Let_def)
qed

text \<open>
  Claim C5 as amended. \<open>getApplicableRules\<close> returns exactly the rules of the company
  that are active, whose amount bounds (each optional) contain the amount and, when the
  context category is a non-empty string, whose category is unset or equal to it. When there
  is a candidate, \<open>createApprovalSteps\<close> applies one rule only: the first of the stable
  sort by descending priority, that is the candidate of highest priority that comes first in
  the order the store returned the rows. It is the earliest created of the highest-priority
  candidates whenever the store returns the rules in creation order.
\<close>

theorem rule_matching_store_order:
  "(\<forall>r. r \<in> set (getApplicableRules d cid ctx) \<longleftrightarrow>
          r \<in> set (db_approvalRules d) \<and> rule_companyId r = cid \<and> isActive r
          \<and> (ctx_category ctx = [] \<or> appliesToCategory r = None
               \<or> appliesToCategory r = Some (ctx_category ctx))
          \<and> (\<forall>lo. minAmount r = Some lo \<longrightarrow> lo \<le> ctx_amount ctx)
          \<and> (\<forall>hi. maxAmount r = Some hi \<longrightarrow> ctx_amount ctx \<le> hi))
   \<and> (getApplicableRules d cid ctx \<noteq> [] \<longrightarrow>
        (\<exists>g rest before after.
            sortByPriority (getApplicableRules d cid ctx) = g # rest
          \<and> createApprovalSteps d eid cid ctx = applyRule d eid g ctx
          \<and> getApplicableRules d cid ctx = before @ g # after
          \<and> (\<forall>r\<in>set before. priority r < priority g)
          \<and> (\<forall>r\<in>set after. priority r \<le> priority g)
          \<and> (sorted (map createdAt (db_approvalRules d)) \<longrightarrow>
               (\<forall>r\<in>set (getApplicableRules d cid ctx).
                   priority r = priority g \<longrightarrow> createdAt g \<le> createdAt r))))"
proof (intro conjI allI impI)
  fix r
  show "r \<in> set (getApplicableRules d cid ctx) \<longleftrightarrow>
          r \<in> set (db_approvalRules d) \<and> rule_companyId r = cid \<and> isActive r
          \<and> (ctx_category ctx = [] \<or> appliesToCategory r = None
               \<or> appliesToCategory r = Some (ctx_category ctx))
          \<and> (\<forall>lo. minAmount r = Some lo \<longrightarrow> lo \<le> ctx_amount ctx)
          \<and> (\<forall>hi. maxAmount r = Some hi \<longrightarrow> ctx_amount ctx \<le> hi)"
    unfolding getApplicableRules_def set_filter mem_Collect_eq ruleApplies_iff by (rule refl)
next
  let ?c = "getApplicableRules d cid ctx"
  assume ne: "?c \<noteq> []"
  from sort_key_head [OF ne, of "\<lambda>r. - priority r"] obtain g rest before after where
    s: "sortByPriority ?c = g # rest" and c: "?c = before @ g # after"
    and b: "\<forall>r\<in>set before. priority r < priority g"
    and a: "\<forall>r\<in>set after. priority r \<le> priority g"
    unfolding sortByPriority_def by auto
  have tie: "\<forall>r\<in>set ?c. priority r = priority g \<longrightarrow> createdAt g \<le> createdAt r"
    if srt: "sorted (map createdAt (db_approvalRules d))"
  proof -
    have "sorted (map createdAt ?c)"
      unfolding getApplicableRules_def using srt by (rule sorted_filter)
    then have "sorted (map createdAt (before @ g # after))" using c by simp
    then have after: "\<forall>r\<in>set after. createdAt g \<le> createdAt r"
      by (simp add: sorted_append)
    show ?thesis
    proof (intro ballI impI)
      fix r assume "r \<in> set ?c" and eq: "priority r = priority g"
      then have "r \<in> set before \<or> r = g \<or> r \<in> set after" using c by auto
      moreover have "r \<notin> set before" using b eq by auto
      ultimately show "createdAt g \<le> createdAt r" using after by auto
    qed
  qed
  show "\<exists>g rest before after.
            sortByPriority ?c = g # rest
          \<and> createApprovalSteps d eid cid ctx = applyRule d eid g ctx
          \<and> ?c = before @ g # after
          \<and> (\<forall>r\<in>set before. priority r < priority g)
          \<and> (\<forall>r\<in>set after. priority r \<le> priority g)
          \<and> (sorted (map createdAt (db_approvalRules d)) \<longrightarrow>
               (\<forall>r\<in>set ?c. priority r = priority g \<longrightarrow> createdAt g \<le> createdAt r))"
    using s c b a tie createApprovalSteps_governing [OF s] by blast
qed

lemma rule_simps:
  "rule_companyId ruleLate = ''c1''" "isActive ruleLate" "appliesToCategory ruleLate = None"
  "minAmount ruleLate = None" "maxAmount ruleLate = None" "priority ruleLate = 1"
  "createdAt ruleLate = 2000"
  "rule_companyId ruleEarly = ''c1''" "isActive ruleEarly" "appliesToCategory ruleEarly = None"
  "minAmount ruleEarly = None" "maxAmount ruleEarly = None" "priority ruleEarly = 1"
  "createdAt ruleEarly = 1000"
  "rule_companyId ruleMeals = ''c1''" "isActive ruleMeals"
  "appliesToCategory ruleMeals = Some ''Meals''"
  "minAmount ruleMeals = None" "maxAmount ruleMeals = None" "priority ruleMeals = 0"
  "createdAt ruleMeals = 3000"
  by (simp_all add: ruleLate_def ruleEarly_def ruleMeals_def mkRule_def)

lemma ruleDb_rules: "db_approvalRules ruleDb = [ruleLate, ruleEarly, ruleMeals]"
  by (simp add: ruleDb_def)

lemma travel_candidates: "getApplicableRules ruleDb ''c1'' travelCtx = [ruleLate, ruleEarly]"
  by (simp add: getApplicableRules_def ruleDb_rules ruleApplies_def rule_simps travelCtx_def)

lemma noCategory_candidates:
  "getApplicableRules ruleDb ''c1'' noCategoryCtx = [ruleLate, ruleEarly, ruleMeals]"
  by (simp add: getApplicableRules_def ruleDb_rules ruleApplies_def rule_simps noCategoryCtx_def)

text \<open>
  Claim C5 as stated fails twice. The query asks for no order, so with two candidates of
  equal priority returned later-created first, the later-created rule governs. And with an
  empty context category the category filter is left out, so a rule for Meals is returned.
\<close>

theorem rule_matching_counterexample:
  "sortByPriority (getApplicableRules ruleDb ''c1'' travelCtx) = [ruleLate, ruleEarly]
   \<and> createApprovalSteps ruleDb ''e1'' ''c1'' travelCtx = applyRule ruleDb ''e1'' ruleLate travelCtx
   \<and> priority ruleEarly = priority ruleLate
   \<and> createdAt ruleEarly < createdAt ruleLate
   \<and> ruleMeals \<in> set (getApplicableRules ruleDb ''c1'' noCategoryCtx)
   \<and> appliesToCategory ruleMeals = Some ''Meals''
   \<and> ctx_category noCategoryCtx \<noteq> ''Meals''"
proof -
  have s: "sortByPriority (getApplicableRules ruleDb ''c1'' travelCtx) = [ruleLate, ruleEarly]"
    by (simp add: travel_candidates sortByPriority_def rule_simps)
  have m: "ruleMeals \<in> set (getApplicableRules ruleDb ''c1'' noCategoryCtx)"
    by (simp add: noCategory_candidates)
  have c: "ctx_category noCategoryCtx \<noteq> ''Meals''"
    by (simp add: noCategoryCtx_def)
  show ?thesis
    using s createApprovalSteps_governing [OF s, of "''e1''"] m c
    by (simp add: rule_simps)
qed

theorem rule_matching_store_order_witness:
  "getApplicableRules ruleDbSorted ''c1'' travelCtx \<noteq> []
   \<and> sorted (map createdAt (db_approvalRules ruleDbSorted))
   \<and> (\<exists>g rest before after.
            sortByPriority (getApplicableRules ruleDbSorted ''c1'' travelCtx) = g # rest
          \<and> createApprovalSteps ruleDbSorted ''e1'' ''c1'' travelCtx
              = applyRule ruleDbSorted ''e1'' g travelCtx
          \<and> getApplicableRules ruleDbSorted ''c1'' travelCtx = before @ g # after
          \<and> (\<forall>r\<in>set before. priority r < priority g)
          \<and> (\<forall>r\<in>set after. priority r \<le> priority g)
          \<and> (\<forall>r\<in>set (getApplicableRules ruleDbSorted ''c1'' travelCtx).
                   priority r = priority g \<longrightarrow> createdAt g \<le> createdAt r))"
proof -
  have c: "getApplicableRules ruleDbSorted ''c1'' travelCtx = [ruleEarly, ruleLate]"
    by (simp add: getApplicableRules_def ruleDbSorted_def ruleApplies_def rule_simps travelCtx_def)
  have ne: "getApplicableRules ruleDbSorted ''c1'' travelCtx \<noteq> []"
    by (simp add: c)
  have srt: "sorted (map createdAt (db_approvalRules ruleDbSorted))"
    by (simp add: ruleDbSorted_def rule_simps)
  from rule_matching_store_order [of ruleDbSorted "''c1''" travelCtx "''e1''"] ne srt
  show ?thesis by blast
qed

subsection \<open>The manager walk\<close>

lemma loop_None:
  "(case cur of None \<Rightarrow> None | Some cu \<Rightarrow> managerOf d cu) = None
     \<Longrightarrow> getManagerHierarchy_loop d cur acc = Some acc"
  by (subst getManagerHierarchy_loop.simps) simp

lemma loop_Some:
  "(case cur of None \<Rightarrow> None | Some cu \<Rightarrow> managerOf d cu) = Some m
     \<Longrightarrow> getManagerHierarchy_loop d cur acc
         = getManagerHierarchy_loop d (findUser d (user_id m)) (acc @ [m])"
  by (subst getManagerHierarchy_loop.simps) simp

lemma chain_returns:
  "managerChain d cur ms \<Longrightarrow> getManagerHierarchy_loop d cur acc = Some (acc @ ms)"
proof (induction arbitrary: acc rule: managerChain.induct)
  case (top cur)
  then show ?case by (simp add: loop_None)
next
  case (up cur m ms)
  then show ?case by (simp add: loop_Some)
qed

lemma returns_chain:
  assumes "getManagerHierarchy_loop d cur acc = Some r"
  shows "\<exists>ms. managerChain d cur ms \<and> r = acc @ ms"
proof (rule getManagerHierarchy_loop.raw_induct
         [where P = "\<lambda>d cur acc r. \<exists>ms. managerChain d cur ms \<and> r = acc @ ms", OF _ assms])
  fix loop :: "db \<Rightarrow> user option \<Rightarrow> user list \<Rightarrow> user list option"
    and d cur acc r
  assume IH: "\<And>d cur acc r. loop d cur acc = Some r
                \<Longrightarrow> \<exists>ms. managerChain d cur ms \<and> r = acc @ ms"
    and step: "(case case cur of None \<Rightarrow> None | Some cu \<Rightarrow> managerOf d cu of
                  None \<Rightarrow> Some acc
                | Some m \<Rightarrow> loop d (findUser d (user_id m)) (acc @ [m])) = Some r"
  show "\<exists>ms. managerChain d cur ms \<and> r = acc @ ms"
  proof (cases "case cur of None \<Rightarrow> None | Some cu \<Rightarrow> managerOf d cu")
    case None
    then show ?thesis using step by (auto intro: managerChain.top)
  next
    case (Some m)
    with step have "loop d (findUser d (user_id m)) (acc @ [m]) = Some r" by simp
    from IH [OF this] obtain ms where "managerChain d (findUser d (user_id m)) ms"
      and "r = (acc @ [m]) @ ms" by blast
    then show ?thesis using Some by (auto intro: managerChain.up)
  qed
qed

lemma manager_walk_chain:
  "getManagerHierarchy d uid = Some managers \<longleftrightarrow> managerChain d (findUser d uid) managers"
  unfolding getManagerHierarchy_def
  using chain_returns [of d "findUser d uid" managers "[]"]
        returns_chain [of d "findUser d uid" "[]" managers]
  by auto

text \<open>
  Claim C9 as amended. The walk of \<open>getManagerHierarchy\<close> has no visited set and no depth
  bound. It returns, with the finite list of the managers met in order, exactly when the
  manager links from the submitter lead to a user without a manager; when they never do, it
  does not return.
\<close>

theorem manager_walk_returns_iff_chain:
  "(getManagerHierarchy d uid = Some managers \<longleftrightarrow> managerChain d (findUser d uid) managers)
   \<and> (getManagerHierarchy d uid = None \<longleftrightarrow> \<not> (\<exists>ms. managerChain d (findUser d uid) ms))"
proof
  show "getManagerHierarchy d uid = Some managers \<longleftrightarrow> managerChain d (findUser d uid) managers"
    by (rule manager_walk_chain)
next
  have "getManagerHierarchy d uid = None \<longleftrightarrow> \<not> (\<exists>ms. getManagerHierarchy d uid = Some ms)"
    by auto
  then show "getManagerHierarchy d uid = None \<longleftrightarrow> \<not> (\<exists>ms. managerChain d (findUser d uid) ms)"
    by (simp only: manager_walk_chain)
qed

lemma cycle_users:
  "findUser cycleDb ''ann'' = Some (mkUser ''ann'' ''MANAGER'' (Some ''bob''))"
  "findUser cycleDb ''bob'' = Some (mkUser ''bob'' ''MANAGER'' (Some ''ann''))"
  "managerOf cycleDb (mkUser ''ann'' ''MANAGER'' (Some ''bob'')) = Some (mkUser ''bob'' ''MANAGER'' (Some ''ann''))"
  "managerOf cycleDb (mkUser ''bob'' ''MANAGER'' (Some ''ann'')) = Some (mkUser ''ann'' ''MANAGER'' (Some ''bob''))"
  by (simp_all add: findUser_def managerOf_def cycleDb_def mkUser_def)

lemma cycle_no_chain:
  "managerChain cycleDb cur ms \<Longrightarrow>
     cur \<noteq> Some (mkUser ''ann'' ''MANAGER'' (Some ''bob''))
     \<and> cur \<noteq> Some (mkUser ''bob'' ''MANAGER'' (Some ''ann''))"
proof (induction rule: managerChain.induct)
  case (top cur)
  then show ?case by (auto simp: cycle_users)
next
  case (up cur m ms)
  show ?case
  proof
    show "cur \<noteq> Some (mkUser ''ann'' ''MANAGER'' (Some ''bob''))"
    proof
      assume "cur = Some (mkUser ''ann'' ''MANAGER'' (Some ''bob''))"
      with up.hyps(1) have "m = mkUser ''bob'' ''MANAGER'' (Some ''ann'')"
        by (simp add: cycle_users)
      then have "findUser cycleDb (user_id m) = Some (mkUser ''bob'' ''MANAGER'' (Some ''ann''))"
        by (simp add: cycle_users mkUser_def findUser_def cycleDb_def)
      with up.IH show False by simp
    qed
    show "cur \<noteq> Some (mkUser ''bob'' ''MANAGER'' (Some ''ann''))"
    proof
      assume "cur = Some (mkUser ''bob'' ''MANAGER'' (Some ''ann''))"
      with up.hyps(1) have "m = mkUser ''ann'' ''MANAGER'' (Some ''bob'')"
        by (simp add: cycle_users)
      then have "findUser cycleDb (user_id m) = Some (mkUser ''ann'' ''MANAGER'' (Some ''bob''))"
        by (simp add: cycle_users mkUser_def findUser_def cycleDb_def)
      with up.IH show False by simp
    qed
  qed
qed

text \<open>
  Claim C9 as stated fails: on two users who are each other's manager the walk never
  returns, and neither does the creation of the steps of a SEQUENTIAL rule.
\<close>

theorem manager_walk_cycle_counterexample:
  "getManagerHierarchy cycleDb ''ann'' = None
   \<and> applyRule cycleDb ''e1'' (mkRule ''r1'' ''SEQUENTIAL'' None None 1 0)
         \<lparr>ctx_category = ''Travel'', ctx_amount = 500, ctx_userId = ''ann''\<rparr> = None"
proof -
  have n: "getManagerHierarchy cycleDb ''ann'' = None"
  proof (cases "getManagerHierarchy cycleDb ''ann''")
    case None
    then show ?thesis .
  next
    case (Some ms)
    then have "managerChain cycleDb (findUser cycleDb ''ann'') ms"
      unfolding getManagerHierarchy_def using returns_chain by fastforce
    then show ?thesis using cycle_no_chain by (auto simp: cycle_users)
  qed
  then show ?thesis
    by (simp add: applyRule_def createSequentialApproval_def mkRule_def)
qed

theorem manager_walk_returns_witness:
  "getManagerHierarchy emptyDb ''emp'' = Some [mkUser ''mgr'' ''MANAGER'' None]"
proof -
  have e: "findUser emptyDb ''emp'' = Some (mkUser ''emp'' ''EMPLOYEE'' (Some ''mgr''))"
    and m: "findUser emptyDb ''mgr'' = Some (mkUser ''mgr'' ''MANAGER'' None)"
    by (simp_all add: findUser_def emptyDb_def mkUser_def)
  have "managerChain emptyDb (Some (mkUser ''mgr'' ''MANAGER'' None)) []"
    by (rule managerChain.top) (simp add: managerOf_def mkUser_def)
  then have "managerChain emptyDb (findUser emptyDb (user_id (mkUser ''mgr'' ''MANAGER'' None))) []"
    using m by (simp add: mkUser_def)
  moreover have "(case Some (mkUser ''emp'' ''EMPLOYEE'' (Some ''mgr'')) of None \<Rightarrow> None
                   | Some cu \<Rightarrow> managerOf emptyDb cu) = Some (mkUser ''mgr'' ''MANAGER'' None)"
    using m by (simp add: managerOf_def mkUser_def)
  ultimately have "managerChain emptyDb (Some (mkUser ''emp'' ''EMPLOYEE'' (Some ''mgr'')))
                     [mkUser ''mgr'' ''MANAGER'' None]"
    by (rule managerChain.up [rotated])
  then have "managerChain emptyDb (findUser emptyDb ''emp'') [mkUser ''mgr'' ''MANAGER'' None]"
    using e by simp
  then show ?thesis
    using manager_walk_returns_iff_chain [of emptyDb "''emp''" "[mkUser ''mgr'' ''MANAGER'' None]"]
    by blast
qed

subsection \<open>Submission\<close>

lemma find_map_same_key:
  assumes "\<And>x. key (f x) = key x"
  shows "find (\<lambda>x. key x = k) (map f xs) = map_option f (find (\<lambda>x. key x = k) xs)"
  using assms by (induction xs) auto

lemma findExpense_writeSubmission:
  "findExpense (writeSubmission d eid amount r ts now) eid' =
     map_option (\<lambda>e. if expense_id e = eid
                      then e\<lparr>convertedAmount := Some amount, conversionRate := Some r,
                             rateTimestamp := Some ts, expense_status := ''WAITING_APPROVAL'',
                             submittedAt := Some now\<rparr>
                      else e) (findExpense d eid')"
  unfolding findExpense_def writeSubmission_def
  by (simp add: find_map_same_key)

lemma writeSubmission_tables:
  "db_approvalRules (writeSubmission d eid amount r ts now) = db_approvalRules d"
  "db_approvalSteps (writeSubmission d eid amount r ts now) = db_approvalSteps d"
  "db_users (writeSubmission d eid amount r ts now) = db_users d"
  "db_companies (writeSubmission d eid amount r ts now) = db_companies d"
  "db_exchangeRates (writeSubmission d eid amount r ts now) = db_exchangeRates d"
  by (simp_all add: writeSubmission_def)

lemma getApplicableRules_writeSubmission:
  "getApplicableRules (writeSubmission d eid amount r ts now) cid ctx = getApplicableRules d cid ctx"
  by (simp add: getApplicableRules_def writeSubmission_tables)

text \<open>
  Claim C1, at the inputs where the code leaves it. When no rule applies to a draft in the
  company's currency, \<open>submitExpense\<close> succeeds and creates no step, as the claim says,
  but the expense it leaves is WAITING_APPROVAL, not APPROVED: \<open>createApprovalSteps\<close>
  only logs a warning. A later \<open>processApproval\<close> finds no rule either and returns the
  status as it stands.
\<close>

theorem submit_without_rule_stays_waiting:
  assumes ex: "findExpense d eid = Some e"
    and own: "expense_companyId e = cid" "userId e = uid"
    and draft: "expense_status e = ''DRAFT''"
    and co: "findCompany d cid = Some c"
    and cur: "originalCurrency e = defaultCurrency c"
    and norule: "getApplicableRules d cid
                   \<lparr>ctx_category = category e, ctx_amount = originalAmount e, ctx_userId = uid\<rparr> = []"
  shows "\<exists>d' e'. submitExpense d cid uid eid now api = Some (d', Inr e')
           \<and> db_approvalSteps d' = db_approvalSteps d
           \<and> findExpense d' eid = Some e'
           \<and> expense_status e' = ''WAITING_APPROVAL''
           \<and> processApproval d' eid = (d', Inr ''WAITING_APPROVAL'')"
proof -
  define e' where "e' = e\<lparr>convertedAmount := Some (originalAmount e), conversionRate := Some 1,
                          rateTimestamp := Some now, expense_status := ''WAITING_APPROVAL'',
                          submittedAt := Some now\<rparr>"
  define d' where "d' = writeSubmission d eid (originalAmount e) 1 now now"
  have id: "expense_id e = eid"
    using ex unfolding findExpense_def by (auto dest: find_Some_iff [THEN iffD1])
  have rules': "getApplicableRules d' cid
                   \<lparr>ctx_category = category e, ctx_amount = originalAmount e, ctx_userId = uid\<rparr> = []"
    using norule by (simp add: d'_def getApplicableRules_writeSubmission)
  have w: "submitExpense_write d e cid uid (originalAmount e) 1 now now = Some (d', Inr e')"
    using rules' by (simp add: submitExpense_write_def createApprovalSteps_def id d'_def e'_def)
  have s: "submitExpense d cid uid eid now api = Some (d', Inr e')"
    using ex own draft co cur w by (simp add: submitExpense_def)
  have f: "findExpense d' eid = Some e'"
    using ex id by (simp add: d'_def findExpense_writeSubmission e'_def)
  have p: "processApproval d' eid = (d', Inr ''WAITING_APPROVAL'')"
    using f rules' own by (simp add: processApproval_def e'_def numberOf_def)
  show ?thesis
    using s f p by (simp add: d'_def writeSubmission_tables e'_def)
qed

lemma draftDb_simps:
  "findExpense draftDb ''e1'' = Some (mkExpense ''e1'' ''emp'' ''USD'' 500 ''DRAFT'')"
  "findCompany draftDb ''c1'' = Some \<lparr>company_id = ''c1'', defaultCurrency = ''USD''\<rparr>"
  "db_approvalRules draftDb = []"
  "db_approvalSteps draftDb = []"
  by (simp_all add: draftDb_def emptyDb_def findExpense_def findCompany_def mkExpense_def)

lemma mkExpense_simps:
  "expense_id (mkExpense eid uid cur amount st) = eid"
  "expense_companyId (mkExpense eid uid cur amount st) = ''c1''"
  "userId (mkExpense eid uid cur amount st) = uid"
  "originalCurrency (mkExpense eid uid cur amount st) = cur"
  "originalAmount (mkExpense eid uid cur amount st) = amount"
  "expense_status (mkExpense eid uid cur amount st) = st"
  "category (mkExpense eid uid cur amount st) = ''Travel''"
  "convertedAmount (mkExpense eid uid cur amount st) = None"
  "conversionRate (mkExpense eid uid cur amount st) = None"
  by (simp_all add: mkExpense_def)

theorem submit_without_rule_witness:
  "\<exists>d' e'. submitExpense draftDb ''c1'' ''emp'' ''e1'' 1000 None = Some (d', Inr e')
           \<and> db_approvalSteps d' = []
           \<and> findExpense d' ''e1'' = Some e'
           \<and> expense_status e' = ''WAITING_APPROVAL''
           \<and> processApproval d' ''e1'' = (d', Inr ''WAITING_APPROVAL'')"
proof -
  have "getApplicableRules draftDb ''c1''
          \<lparr>ctx_category = category (mkExpense ''e1'' ''emp'' ''USD'' 500 ''DRAFT''),
           ctx_amount = originalAmount (mkExpense ''e1'' ''emp'' ''USD'' 500 ''DRAFT''),
           ctx_userId = ''emp''\<rparr> = []"
    by (simp add: getApplicableRules_def draftDb_simps)
  from submit_without_rule_stays_waiting
         [OF draftDb_simps(1) mkExpense_simps(2) mkExpense_simps(3) mkExpense_simps(6)
             draftDb_simps(2) _ this, of 1000 None]
  show ?thesis
    by (simp add: mkExpense_simps draftDb_simps)
qed

lemma badRuleDb_simps:
  "findExpense badRuleDb ''e1'' = Some (mkExpense ''e1'' ''emp'' ''USD'' 500 ''DRAFT'')"
  "findCompany badRuleDb ''c1'' = Some \<lparr>company_id = ''c1'', defaultCurrency = ''USD''\<rparr>"
  "db_approvalRules badRuleDb = [mkRule ''r1'' ''SPECIFIC'' None None 1 0]"
  "db_approvalSteps badRuleDb = []"
  by (simp_all add: badRuleDb_def draftDb_def emptyDb_def findExpense_def findCompany_def
      mkExpense_def)

lemma badRule_candidates:
  "getApplicableRules (writeSubmission badRuleDb ''e1'' 500 1 1000 1000) ''c1''
     \<lparr>ctx_category = ''Travel'', ctx_amount = 500, ctx_userId = ''emp''\<rparr>
   = [mkRule ''r1'' ''SPECIFIC'' None None 1 0]"
  unfolding getApplicableRules_writeSubmission
  by (simp add: getApplicableRules_def badRuleDb_simps ruleApplies_def mkRule_def)

lemma badRule_steps:
  "createApprovalSteps (writeSubmission badRuleDb ''e1'' 500 1 1000 1000) ''e1'' ''c1''
     \<lparr>ctx_category = ''Travel'', ctx_amount = 500, ctx_userId = ''emp''\<rparr>
   = Some (writeSubmission badRuleDb ''e1'' 500 1 1000 1000,
           Inl (Error ''Specific approver not defined in rule''))"
  unfolding createApprovalSteps_def badRule_candidates Let_def
  by (simp add: sortByPriority_def applyRule_def createSpecificApproval_def mkRule_def)

text \<open>
  Claim C8, at the input where the code leaves it. Under an active SPECIFIC rule that names
  no approver, \<open>submitExpense\<close> first writes the conversion fields and the status
  WAITING_APPROVAL, then \<open>createSpecificApproval\<close> throws. The call fails, and the
  expense it leaves is not the draft it found: nothing undoes the first write.
\<close>

theorem submit_step_failure_keeps_writes:
  "submitExpense badRuleDb ''c1'' ''emp'' ''e1'' 1000 None
     = Some (writeSubmission badRuleDb ''e1'' 500 1 1000 1000,
             Inl (Error ''Specific approver not defined in rule''))
   \<and> map_option expense_status
         (findExpense (writeSubmission badRuleDb ''e1'' 500 1 1000 1000) ''e1'')
       = Some ''WAITING_APPROVAL''
   \<and> map_option convertedAmount
         (findExpense (writeSubmission badRuleDb ''e1'' 500 1 1000 1000) ''e1'')
       = Some (Some 500)
   \<and> map_option conversionRate
         (findExpense (writeSubmission badRuleDb ''e1'' 500 1 1000 1000) ''e1'')
       = Some (Some 1)"
proof -
  have w: "submitExpense_write badRuleDb (mkExpense ''e1'' ''emp'' ''USD'' 500 ''DRAFT'')
             ''c1'' ''emp'' 500 1 1000 1000
           = Some (writeSubmission badRuleDb ''e1'' 500 1 1000 1000,
                   Inl (Error ''Specific approver not defined in rule''))"
    unfolding submitExpense_write_def mkExpense_simps Let_def badRule_steps by simp
  have s: "submitExpense badRuleDb ''c1'' ''emp'' ''e1'' 1000 None
     = Some (writeSubmission badRuleDb ''e1'' 500 1 1000 1000,
             Inl (Error ''Specific approver not defined in rule''))"
    by (simp add: submitExpense_def badRuleDb_simps mkExpense_simps w)
  show ?thesis
    unfolding s findExpense_writeSubmission badRuleDb_simps
    by (simp add: mkExpense_simps)
qed

subsection \<open>Decisions\<close>

lemma toUpperCase_actions:
  "toUpperCase ''approve'' = ''APPROVE''" "toUpperCase ''reject'' = ''REJECT''"
  by (simp_all add: toUpperCase_def char_of_def bit_Suc_0_iff)

lemma updateStep_tables:
  "db_expenses (updateStep d sid st uid now cs) = db_expenses d"
  "db_approvalRules (updateStep d sid st uid now cs) = db_approvalRules d"
  "db_users (updateStep d sid st uid now cs) = db_users d"
  by (simp_all add: updateStep_def)

lemma sortByPriority_Nil_iff: "sortByPriority rules = [] \<longleftrightarrow> rules = []"
  unfolding sortByPriority_def by (metis length_sort length_0_conv)

lemma processApproval_found:
  assumes "findExpense d eid = Some e"
  shows "\<exists>d' st. processApproval d eid = (d', Inr st)"
proof (cases "getApplicableRules d (expense_companyId e)
                \<lparr>ctx_category = category e, ctx_amount = numberOf (convertedAmount e),
                 ctx_userId = userId e\<rparr> = []")
  case True
  then show ?thesis using assms by (simp add: processApproval_def)
next
  case False
  then obtain rule rest where
    "sortByPriority (getApplicableRules d (expense_companyId e)
                \<lparr>ctx_category = category e, ctx_amount = numberOf (convertedAmount e),
                 ctx_userId = userId e\<rparr>) = rule # rest"
    using sortByPriority_Nil_iff by (metis list.exhaust)
  then show ?thesis
    using assms False by (simp add: processApproval_def split: prod.splits)
qed

lemma no_pending_step_iff:
  "find (\<lambda>s. approverId s = uid \<and> step_status s = ''PENDING'')
        (filter (\<lambda>s. approverId s = uid) (stepsOfExpense d eid)) = None
   \<longleftrightarrow> \<not> (\<exists>s\<in>set (db_approvalSteps d).
              expenseId s = eid \<and> approverId s = uid \<and> step_status s = ''PENDING'')"
  unfolding find_None_iff stepsOfExpense_def by auto

lemma approveExpense_not_found:
  assumes "findExpense d eid = None \<or> (\<exists>e. findExpense d eid = Some e \<and> expense_companyId e \<noteq> cid)"
  shows "approveExpense d cid uid eid action cs now = (d, Inl (AppError ''Expense not found'' 404))"
  using assms by (auto simp: approveExpense_def approveExpense_check_def)

lemma approveExpense_closed:
  assumes "\<exists>e. findExpense d eid = Some e \<and> expense_companyId e = cid
             \<and> expense_status e \<noteq> ''WAITING_APPROVAL''"
  shows "approveExpense d cid uid eid action cs now
            = (d, Inl (AppError ''Expense is not waiting for approval'' 400))"
  using assms by (auto simp: approveExpense_def approveExpense_check_def)

lemma approveExpense_no_pending:
  assumes a: "(\<exists>e. findExpense d eid = Some e \<and> expense_companyId e = cid
             \<and> expense_status e = ''WAITING_APPROVAL'')
        \<and> \<not> (\<exists>s\<in>set (db_approvalSteps d).
                 expenseId s = eid \<and> approverId s = uid \<and> step_status s = ''PENDING'')"
  shows "approveExpense d cid uid eid action cs now
            = (d, Inl (AppError ''You are not authorized to approve this expense'' 403))"
proof -
  from a [THEN conjunct2]
  have "find (\<lambda>s. approverId s = uid \<and> step_status s = ''PENDING'')
        (filter (\<lambda>s. approverId s = uid) (stepsOfExpense d eid)) = None"
    by (rule no_pending_step_iff [THEN iffD2])
  with a show ?thesis
    by (auto simp: approveExpense_def approveExpense_check_def)
qed

lemma approveExpense_success:
  assumes a: "(\<exists>e. findExpense d eid = Some e \<and> expense_companyId e = cid
             \<and> expense_status e = ''WAITING_APPROVAL'')
        \<and> (\<exists>s\<in>set (db_approvalSteps d).
                 expenseId s = eid \<and> approverId s = uid \<and> step_status s = ''PENDING'')"
  shows "\<exists>d' st. approveExpense d cid uid eid action cs now = (d', Inr st)"
proof -
  from a obtain e where e: "findExpense d eid = Some e" "expense_companyId e = cid"
    "expense_status e = ''WAITING_APPROVAL''" by blast
  from a have p: "\<exists>s\<in>set (db_approvalSteps d).
                 expenseId s = eid \<and> approverId s = uid \<and> step_status s = ''PENDING''"
    by (rule conjunct2)
  have "find (\<lambda>s. approverId s = uid \<and> step_status s = ''PENDING'')
        (filter (\<lambda>s. approverId s = uid) (stepsOfExpense d eid)) \<noteq> None"
  proof
    assume "find (\<lambda>s. approverId s = uid \<and> step_status s = ''PENDING'')
        (filter (\<lambda>s. approverId s = uid) (stepsOfExpense d eid)) = None"
    then have "\<not> (\<exists>s\<in>set (db_approvalSteps d).
                 expenseId s = eid \<and> approverId s = uid \<and> step_status s = ''PENDING'')"
      by (rule no_pending_step_iff [THEN iffD1])
    with p show False by blast
  qed
  then obtain s where s: "find (\<lambda>s. approverId s = uid \<and> step_status s = ''PENDING'')
        (filter (\<lambda>s. approverId s = uid) (stepsOfExpense d eid)) = Some s" by blast
  have c: "approveExpense_check d cid uid eid = Inr s"
    using e s by (simp add: approveExpense_check_def)
  have "findExpense (updateStep d (step_id s) (toUpperCase action) uid now cs) eid = Some e"
    using e(1) by (simp add: findExpense_def updateStep_tables)
  from processApproval_found [OF this]
  show ?thesis
    by (simp add: approveExpense_def c approveExpense_write_def)
qed

text \<open>
  Claim C6 as amended. \<open>approveExpense\<close> takes the expense and the caller, not a step. A
  missing or foreign expense is the error 404; an expense that is not WAITING_APPROVAL is the
  error 400; a caller with no PENDING step on the expense is the one error 403, whether the
  caller holds no step at all or a step that is decided already. Each of these failures
  returns the database it was given. In particular an APPROVED or REJECTED expense keeps
  its status and its steps under every further decision. In the remaining case the call
  succeeds.
\<close>

theorem decide_failures_leave_state:
  "(findExpense d eid = None \<or> (\<exists>e. findExpense d eid = Some e \<and> expense_companyId e \<noteq> cid)
      \<longrightarrow> approveExpense d cid uid eid action cs now
            = (d, Inl (AppError ''Expense not found'' 404)))
   \<and> ((\<exists>e. findExpense d eid = Some e \<and> expense_companyId e = cid
             \<and> expense_status e \<noteq> ''WAITING_APPROVAL'')
      \<longrightarrow> approveExpense d cid uid eid action cs now
            = (d, Inl (AppError ''Expense is not waiting for approval'' 400)))
   \<and> ((\<exists>e. findExpense d eid = Some e \<and> expense_companyId e = cid
             \<and> expense_status e = ''WAITING_APPROVAL'')
        \<and> \<not> (\<exists>s\<in>set (db_approvalSteps d).
                 expenseId s = eid \<and> approverId s = uid \<and> step_status s = ''PENDING'')
      \<longrightarrow> approveExpense d cid uid eid action cs now
            = (d, Inl (AppError ''You are not authorized to approve this expense'' 403)))
   \<and> ((\<exists>e. findExpense d eid = Some e \<and> expense_companyId e = cid
             \<and> expense_status e = ''WAITING_APPROVAL'')
        \<and> (\<exists>s\<in>set (db_approvalSteps d).
                 expenseId s = eid \<and> approverId s = uid \<and> step_status s = ''PENDING'')
      \<longrightarrow> (\<exists>d' st. approveExpense d cid uid eid action cs now = (d', Inr st)))"
  using approveExpense_not_found [of d eid cid uid action cs now]
        approveExpense_closed [of d eid cid uid action cs now]
        approveExpense_no_pending [of d eid cid uid action cs now]
        approveExpense_success [of d eid cid uid action cs now]
  by blast

lemma decidedDb_simps:
  "findExpense decidedDb ''e1'' = Some (mkExpense ''e1'' ''emp'' ''USD'' 500 ''WAITING_APPROVAL'')"
  "db_approvalSteps decidedDb = [mkStep 0 ''e1'' ''mgr'' 0 ''APPROVED'',
                                  mkStep 1 ''e1'' ''adm'' 0 ''PENDING'']"
  "db_approvalRules decidedDb = [mkRule ''r1'' ''PARALLEL'' None None 1 0]"
  by (simp_all add: decidedDb_def emptyDb_def findExpense_def mkExpense_def)

lemma closedDb_simps:
  "findExpense closedDb ''e1'' = Some (mkExpense ''e1'' ''emp'' ''USD'' 500 ''APPROVED'')"
  "db_approvalSteps closedDb = [mkStep 0 ''e1'' ''mgr'' 0 ''APPROVED'',
                                 mkStep 1 ''e1'' ''adm'' 0 ''PENDING'']"
  by (simp_all add: closedDb_def decidedDb_def emptyDb_def findExpense_def mkExpense_def)

lemma mkStep_simps:
  "step_id (mkStep i eid aid ix st) = i" "expenseId (mkStep i eid aid ix st) = eid"
  "approverId (mkStep i eid aid ix st) = aid" "sequenceIndex (mkStep i eid aid ix st) = ix"
  "step_status (mkStep i eid aid ix st) = st"
  by (simp_all add: mkStep_def)

text \<open>
  Claim C6 as stated fails: the approver whose step is decided already and a user who
  holds no step get the same error, so AlreadyDecided is not an error of its own.
\<close>

theorem decide_errors_counterexample:
  "approverId (mkStep 0 ''e1'' ''mgr'' 0 ''APPROVED'') = ''mgr''
   \<and> step_status (mkStep 0 ''e1'' ''mgr'' 0 ''APPROVED'') \<noteq> ''PENDING''
   \<and> mkStep 0 ''e1'' ''mgr'' 0 ''APPROVED'' \<in> set (db_approvalSteps decidedDb)
   \<and> filter (\<lambda>s. approverId s = ''out'') (db_approvalSteps decidedDb) = []
   \<and> approveExpense decidedDb ''c1'' ''mgr'' ''e1'' ''approve'' None 2000
       = (decidedDb, Inl (AppError ''You are not authorized to approve this expense'' 403))
   \<and> approveExpense decidedDb ''c1'' ''out'' ''e1'' ''approve'' None 2000
       = (decidedDb, Inl (AppError ''You are not authorized to approve this expense'' 403))"
proof -
  have m: "approveExpense decidedDb ''c1'' ''mgr'' ''e1'' ''approve'' None 2000
       = (decidedDb, Inl (AppError ''You are not authorized to approve this expense'' 403))"
    by (rule approveExpense_no_pending) (simp add: decidedDb_simps mkExpense_simps mkStep_simps)
  have out: "approveExpense decidedDb ''c1'' ''out'' ''e1'' ''approve'' None 2000
       = (decidedDb, Inl (AppError ''You are not authorized to approve this expense'' 403))"
    by (rule approveExpense_no_pending) (simp add: decidedDb_simps mkExpense_simps mkStep_simps)
  show ?thesis
    unfolding m out by (simp add: decidedDb_simps mkStep_simps)
qed

theorem decide_failures_witness:
  "approveExpense closedDb ''c1'' ''adm'' ''e1'' ''reject'' None 2000
     = (closedDb, Inl (AppError ''Expense is not waiting for approval'' 400))
   \<and> approveExpense decidedDb ''c1'' ''out'' ''e1'' ''approve'' None 2000
     = (decidedDb, Inl (AppError ''You are not authorized to approve this expense'' 403))
   \<and> (\<exists>d' st. approveExpense decidedDb ''c1'' ''adm'' ''e1'' ''approve'' None 2000 = (d', Inr st))"
proof -
  have closed: "\<exists>e. findExpense closedDb ''e1'' = Some e \<and> expense_companyId e = ''c1''
             \<and> expense_status e \<noteq> ''WAITING_APPROVAL''"
    by (simp add: closedDb_simps mkExpense_simps)
  have waiting: "\<exists>e. findExpense decidedDb ''e1'' = Some e \<and> expense_companyId e = ''c1''
             \<and> expense_status e = ''WAITING_APPROVAL''"
    by (simp add: decidedDb_simps mkExpense_simps)
  have none: "\<not> (\<exists>s\<in>set (db_approvalSteps decidedDb).
                 expenseId s = ''e1'' \<and> approverId s = ''out'' \<and> step_status s = ''PENDING'')"
    by (simp add: decidedDb_simps mkStep_simps)
  have some: "\<exists>s\<in>set (db_approvalSteps decidedDb).
                 expenseId s = ''e1'' \<and> approverId s = ''adm'' \<and> step_status s = ''PENDING''"
    by (simp add: decidedDb_simps mkStep_simps)
  from decide_failures_leave_state [of closedDb "''e1''" "''c1''" "''adm''" "''reject''" None 2000]
       closed
  have 1: "approveExpense closedDb ''c1'' ''adm'' ''e1'' ''reject'' None 2000
     = (closedDb, Inl (AppError ''Expense is not waiting for approval'' 400))"
    by blast
  from decide_failures_leave_state [of decidedDb "''e1''" "''c1''" "''out''" "''approve''" None 2000]
       waiting none
  have 2: "approveExpense decidedDb ''c1'' ''out'' ''e1'' ''approve'' None 2000
     = (decidedDb, Inl (AppError ''You are not authorized to approve this expense'' 403))"
    by blast
  from decide_failures_leave_state [of decidedDb "''e1''" "''c1''" "''adm''" "''approve''" None 2000]
       waiting some
  have 3: "\<exists>d' st. approveExpense decidedDb ''c1'' ''adm'' ''e1'' ''approve'' None 2000 = (d', Inr st)"
    by blast
  from 1 2 3 show ?thesis by blast
qed

lemma raceDb_simps:
  "findExpense raceDb ''e1'' = Some (mkExpense ''e1'' ''emp'' ''USD'' 500 ''WAITING_APPROVAL'')"
  "db_approvalSteps raceDb = [mkStep 0 ''e1'' ''mgr'' 0 ''PENDING'']"
  "db_approvalRules raceDb = [mkRule ''r1'' ''PARALLEL'' None None 1 0]"
  "db_expenses raceDb = [mkExpense ''e1'' ''emp'' ''USD'' 500 ''WAITING_APPROVAL'']"
  by (simp_all add: raceDb_def emptyDb_def findExpense_def mkExpense_def)

lemma race_check:
  "approveExpense_check raceDb ''c1'' ''mgr'' ''e1'' = Inr (mkStep 0 ''e1'' ''mgr'' 0 ''PENDING'')"
  by (simp add: approveExpense_check_def raceDb_simps mkExpense_simps stepsOfExpense_def
      mkStep_simps)

lemma race_update:
  "db_approvalSteps (updateStep raceDb 0 st ''mgr'' t cs) = [decidedStep st t cs]"
  by (simp add: updateStep_def raceDb_simps mkStep_def decidedStep_def)

lemma race_update2:
  "db_approvalSteps (updateStep (updateStep raceDb 0 st ''mgr'' t cs) 0 st' ''mgr'' t' cs')
     = [decidedStep st' t' cs']"
  by (simp add: updateStep_def raceDb_simps mkStep_def decidedStep_def)

lemma decidedStep_simps:
  "step_status (decidedStep st t cs) = st" "expenseId (decidedStep st t cs) = ''e1''"
  "approverId (decidedStep st t cs) = ''mgr''" "step_id (decidedStep st t cs) = 0"
  by (simp_all add: decidedStep_def mkStep_def)

lemma race_processApproval:
  assumes "db_approvalSteps d = [decidedStep st t cs]" "st \<noteq> ''REJECTED''" "st \<noteq> ''APPROVED''"
    and "db_expenses d = db_expenses raceDb" "db_approvalRules d = db_approvalRules raceDb"
  shows "processApproval d ''e1'' = (d, Inr ''WAITING_APPROVAL'')"
proof -
  have f: "findExpense d ''e1'' = Some (mkExpense ''e1'' ''emp'' ''USD'' 500 ''WAITING_APPROVAL'')"
    using assms(4) raceDb_simps(1) by (simp add: findExpense_def)
  have r: "getApplicableRules d ''c1''
             \<lparr>ctx_category = ''Travel'', ctx_amount = 0, ctx_userId = ''emp''\<rparr>
           = [mkRule ''r1'' ''PARALLEL'' None None 1 0]"
    using assms(5) by (simp add: getApplicableRules_def raceDb_simps ruleApplies_def mkRule_def)
  have s: "stepsOfExpense d ''e1'' = [decidedStep st t cs]"
    using assms(1) by (simp add: stepsOfExpense_def decidedStep_simps)
  have e: "evaluateApprovalStatus d (mkExpense ''e1'' ''emp'' ''USD'' 500 ''WAITING_APPROVAL'')
             [decidedStep st t cs] (mkRule ''r1'' ''PARALLEL'' None None 1 0)
           = (d, ''WAITING_APPROVAL'')"
    using assms(2,3)
    by (simp add: evaluateApprovalStatus_def evaluatePercentage_def decidedStep_simps js_div_def
        js_or_def mkRule_def)
  show ?thesis
    by (simp add: processApproval_def f mkExpense_simps numberOf_def r sortByPriority_def s e)
qed

text \<open>
  Claim C10, at the interleaving where the code leaves it. The PENDING test of
  \<open>approveExpense\<close> is a read of its own; the write that follows is an update by step
  identifier with no condition on the status. Two calls of the manager, one to approve and
  one to reject, that both read before either writes both find the step PENDING; the first
  write commits, and the second write commits as well and overwrites the first decision.
  Only when the second call reads after the first write is it refused. (The status written
  is \<open>action.toUpperCase()\<close>, so APPROVE and REJECT.)
\<close>

theorem racing_decisions_both_commit:
  "approveExpense_check raceDb ''c1'' ''mgr'' ''e1'' = Inr (mkStep 0 ''e1'' ''mgr'' 0 ''PENDING'')
   \<and> approveExpense_write raceDb (mkStep 0 ''e1'' ''mgr'' 0 ''PENDING'') ''mgr'' ''e1''
         ''approve'' None 2000
       = (updateStep raceDb 0 ''APPROVE'' ''mgr'' 2000 None, Inr ''WAITING_APPROVAL'')
   \<and> map step_status (db_approvalSteps (updateStep raceDb 0 ''APPROVE'' ''mgr'' 2000 None))
       = [''APPROVE'']
   \<and> approveExpense_write (updateStep raceDb 0 ''APPROVE'' ''mgr'' 2000 None)
         (mkStep 0 ''e1'' ''mgr'' 0 ''PENDING'') ''mgr'' ''e1'' ''reject'' (Some ''no'') 2001
       = (updateStep (updateStep raceDb 0 ''APPROVE'' ''mgr'' 2000 None)
            0 ''REJECT'' ''mgr'' 2001 (Some ''no''), Inr ''WAITING_APPROVAL'')
   \<and> map step_status (db_approvalSteps
         (updateStep (updateStep raceDb 0 ''APPROVE'' ''mgr'' 2000 None)
            0 ''REJECT'' ''mgr'' 2001 (Some ''no'')))
       = [''REJECT'']
   \<and> approveExpense (updateStep raceDb 0 ''APPROVE'' ''mgr'' 2000 None) ''c1'' ''mgr'' ''e1''
         ''reject'' (Some ''no'') 2001
       = (updateStep raceDb 0 ''APPROVE'' ''mgr'' 2000 None,
          Inl (AppError ''You are not authorized to approve this expense'' 403))"
proof -
  have w1: "approveExpense_write raceDb (mkStep 0 ''e1'' ''mgr'' 0 ''PENDING'') ''mgr'' ''e1''
         ''approve'' None 2000
       = (updateStep raceDb 0 ''APPROVE'' ''mgr'' 2000 None, Inr ''WAITING_APPROVAL'')"
    unfolding approveExpense_write_def toUpperCase_actions mkStep_simps
    by (rule race_processApproval [OF race_update]) (simp_all add: updateStep_tables)
  have w2: "approveExpense_write (updateStep raceDb 0 ''APPROVE'' ''mgr'' 2000 None)
         (mkStep 0 ''e1'' ''mgr'' 0 ''PENDING'') ''mgr'' ''e1'' ''reject'' (Some ''no'') 2001
       = (updateStep (updateStep raceDb 0 ''APPROVE'' ''mgr'' 2000 None)
            0 ''REJECT'' ''mgr'' 2001 (Some ''no''), Inr ''WAITING_APPROVAL'')"
    unfolding approveExpense_write_def toUpperCase_actions mkStep_simps
    by (rule race_processApproval [OF race_update2]) (simp_all add: updateStep_tables)
  have seq: "approveExpense (updateStep raceDb 0 ''APPROVE'' ''mgr'' 2000 None) ''c1'' ''mgr'' ''e1''
         ''reject'' (Some ''no'') 2001
       = (updateStep raceDb 0 ''APPROVE'' ''mgr'' 2000 None,
          Inl (AppError ''You are not authorized to approve this expense'' 403))"
    by (rule approveExpense_no_pending)
       (simp add: findExpense_def updateStep_tables raceDb_simps mkExpense_simps race_update
          decidedStep_simps)
  show ?thesis
    unfolding w1 w2 seq race_check race_update race_update2
    by (simp add: decidedStep_simps)
qed

subsection \<open>Conversion at submission\<close>














lemma sort_key_Nil_iff: "sort_key f xs = [] \<longleftrightarrow> xs = []"
  by (metis length_sort length_0_conv)


lemma getCachedRate_None:
  "getCachedRate d f t now = None \<longleftrightarrow>
     \<not> (\<exists>x\<in>set (db_exchangeRates d).
           baseCurrency x = f \<and> targetCurrency x = t \<and> now - 60 * 60 * 1000 \<le> timestamp x)"
proof -
  let ?fresh = "filter (\<lambda>r. baseCurrency r = f \<and> targetCurrency r = t
                             \<and> timestamp r \<ge> now - 60 * 60 * 1000) (db_exchangeRates d)"
  have "getCachedRate d f t now = None \<longleftrightarrow> sort_key (\<lambda>r. - timestamp r) ?fresh = []"
    by (simp add: getCachedRate_def Let_def split: list.splits)
  also have "\<dots> \<longleftrightarrow> ?fresh = []"
    by (rule sort_key_Nil_iff)
  also have "\<dots> \<longleftrightarrow> \<not> (\<exists>x\<in>set (db_exchangeRates d).
           baseCurrency x = f \<and> targetCurrency x = t \<and> now - 60 * 60 * 1000 \<le> timestamp x)"
    unfolding filter_empty_conv by blast
  finally show ?thesis .
qed






















lemma submit_rate_unavailable:
  assumes e: "findExpense d eid = Some e" and own: "expense_companyId e = cid" "userId e = uid"
    and draft: "expense_status e = ''DRAFT''" and co: "findCompany d cid = Some c"
    and cur: "originalCurrency e \<noteq> defaultCurrency c"
    and miss: "getCachedRate d (originalCurrency e) (defaultCurrency c) now = None"
  shows "submitExpense d cid uid eid now None
           = Some (d, Inl (Error ''Currency conversion service unavailable''))"
  using e own draft co cur miss by (simp add: submitExpense_def convertCurrency_def)










end
